theory Spec2Isabelle
  imports
    Main
    "HOL-Library.FSet"
    "HOL-Library.Multiset"
    "HOL-Library.Char_ord"
    "HOL-Library.List_Lexorder"
    "HOL-Library.Product_Lexorder"
begin

section \<open>The coverage collaborator as data\<close>

text \<open>
  \<^verbatim>\<open>coverage_lcov/converter.py\<close> is an adapter over the \<^verbatim>\<open>coverage\<close> library. The
  library is not part of the repository, so everything the converter asks of it is a
  field of a record: what a call returns, or the exception it raises.

  Exceptions are values. The constructors are the classes the converter's
  \<^verbatim>\<open>except\<close> clauses tell apart: \<open>NoSource\<close>, \<open>NotPython\<close>, the
  \<open>CoverageException\<close> the converter raises itself, the \<open>AttributeError\<close> of an
  attribute looked up on a tuple, the two failures of writing a file, and any other
  exception of the library.
\<close>

datatype error =
    NoSource
  | NotPython
  | CoverageException string
  | AttributeError
  | IOError
  | UnicodeEncodeError
  | OtherError string

text \<open>
  \<^verbatim>\<open>Analysis\<close>: the sets \<^verbatim>\<open>statements\<close> and \<^verbatim>\<open>missing\<close> of line numbers. A Python
  set is finite and a line number is a Python integer.
\<close>

record analysis =
  statements :: "int fset"
  missing :: "int fset"

text \<open>
  A token line is a list of (class, text) pairs; the converter only counts them.
  A file reporter answers \<^verbatim>\<open>filename\<close>, \<^verbatim>\<open>relative_filename()\<close>,
  \<^verbatim>\<open>source_token_lines()\<close> (which reads the source and may raise) and
  \<^verbatim>\<open>should_be_python()\<close>.
\<close>

type_synonym token_line = "(string \<times> string) list"

record file_reporter =
  filename :: string
  relative_filename :: string
  source_token_lines :: "error + token_line list"
  should_be_python :: bool

text \<open>
  An element of the list the library hands out is, by the docstrings of
  \<^verbatim>\<open>_unpack_file_reporter\<close> and \<^verbatim>\<open>_unpack_morf\<close>, either a \<^verbatim>\<open>PythonFileReporter\<close> or
  a tuple of a file reporter and a morf (the module-or-file the reporter was made
  for, a path). One version of the library returns one shape for the whole list, so
  the list is one of two homogeneous lists.
\<close>

datatype reporter_item =
    Bare file_reporter
  | Paired file_reporter string

datatype morf =
    MorfReporter file_reporter
  | MorfPath string

datatype reporters =
    Reporters "file_reporter list"
  | Pairs "(file_reporter \<times> string) list"

record config =
  report_include :: "string list"
  report_omit :: "string list"
  ignore_errors :: bool

text \<open>
  \<^verbatim>\<open>self.cov_obj\<close>: its configuration, the result of \<^verbatim>\<open>_get_file_reporters(None)\<close>,
  the result of \<^verbatim>\<open>_analyze(morf)\<close>, and whether one prepared glob pattern matches a
  path (\<^verbatim>\<open>prep_patterns\<close> and the regular expression of \<^verbatim>\<open>GlobMatcher\<close>, which is an
  alternation over the patterns).
\<close>

record coverage =
  cov_config :: config
  cov_get_file_reporters :: reporters
  cov_analyze :: "morf \<Rightarrow> error + analysis"
  cov_pattern_match :: "string \<Rightarrow> string \<Rightarrow> bool"

record converter =
  relative_path :: bool
  cov_obj :: coverage

section \<open>The converter\<close>

fun unpack_file_reporter :: "reporter_item \<Rightarrow> file_reporter" where
  "unpack_file_reporter (Bare fr) = fr"
| "unpack_file_reporter (Paired fr m) = fr"

fun unpack_morf :: "reporter_item \<Rightarrow> morf" where
  "unpack_morf (Bare fr) = MorfReporter fr"
| "unpack_morf (Paired fr m) = MorfPath m"

text \<open>
  \<^verbatim>\<open>GlobMatcher_compat(pattern, name)\<close> builds a matcher over a list of patterns; its
  \<^verbatim>\<open>match(path)\<close> holds when one of the patterns matches. The name only labels the
  matcher.
\<close>

definition GlobMatcher_compat ::
  "coverage \<Rightarrow> string list \<Rightarrow> string \<Rightarrow> string \<Rightarrow> bool" where
  "GlobMatcher_compat cov pattern name =
     (\<lambda>path. list_ex (\<lambda>p. cov_pattern_match cov p path) pattern)"

text \<open>The elements of the list, as the list comprehensions and the loop see them.\<close>

fun items :: "reporters \<Rightarrow> reporter_item list" where
  "items (Reporters frs) = map Bare frs"
| "items (Pairs ps) = map (\<lambda>(fr, m). Paired fr m) ps"

text \<open>\<^verbatim>\<open>[fr for fr in file_reporters if keep(fr)]\<close>, a list of the same shape.\<close>

fun comprehension :: "(reporter_item \<Rightarrow> bool) \<Rightarrow> reporters \<Rightarrow> reporters" where
  "comprehension keep (Reporters frs) = Reporters (filter (\<lambda>fr. keep (Bare fr)) frs)"
| "comprehension keep (Pairs ps) = Pairs (filter (\<lambda>(fr, m). keep (Paired fr m)) ps)"

definition get_file_reporters :: "converter \<Rightarrow> error + reporters" where
  "get_file_reporters self =
     (let file_reporters = cov_get_file_reporters (cov_obj self);
          config = cov_config (cov_obj self);
          file_reporters =
            (if report_include config \<noteq> [] then
               (let matcher = GlobMatcher_compat (cov_obj self) (report_include config)
                                ''report_include''
                in comprehension (\<lambda>fr. matcher (filename (unpack_file_reporter fr)))
                     file_reporters)
             else file_reporters);
          file_reporters =
            (if report_omit config \<noteq> [] then
               (let matcher = GlobMatcher_compat (cov_obj self) (report_omit config)
                                ''report_omit''
                in comprehension (\<lambda>fr. \<not> matcher (filename (unpack_file_reporter fr)))
                     file_reporters)
             else file_reporters)
      in if items file_reporters = [] then Inl (CoverageException ''No data to report.'')
         else Inr file_reporters)"

text \<open>
  \<^verbatim>\<open>sorted(file_reporters)\<close>. Python's sort is stable and compares with \<^verbatim>\<open><\<close>. File
  reporters compare by \<^verbatim>\<open>filename\<close>, strings by code point, and tuples
  lexicographically.
\<close>

fun sorted_reporters :: "reporters \<Rightarrow> reporter_item list" where
  "sorted_reporters (Reporters frs) = map Bare (sort_key filename frs)"
| "sorted_reporters (Pairs ps) =
     map (\<lambda>(fr, m). Paired fr m) (sort_key (\<lambda>(fr, m). (filename fr, m)) ps)"

text \<open>\<^verbatim>\<open>str\<close> of a Python integer, as an f-string formats it.\<close>

fun str_nat :: "nat \<Rightarrow> string" where
  "str_nat n =
     (if n < 10 then [char_of (48 + n)]
      else str_nat (n div 10) @ [char_of (48 + n mod 10)])"

declare str_nat.simps [simp del]

definition str_int :: "int \<Rightarrow> string" where
  "str_int i = (if i < 0 then CHR ''-'' # str_nat (nat (- i)) else str_nat (nat i))"

definition nl :: string where
  "nl = [CHR 0x0A]"

text \<open>The f-string \<^verbatim>\<open>f"DA:{i},{hits}\n"\<close>.\<close>

definition da_record :: "int \<Rightarrow> int \<Rightarrow> string" where
  "da_record i hits = ''DA:'' @ str_int i @ '','' @ str_int hits @ nl"

fun get_hits :: "int \<Rightarrow> analysis \<Rightarrow> int option" where
  "get_hits line_num analysis =
     (if line_num |\<in>| missing analysis then Some 0
      else if line_num |\<notin>| statements analysis then None
      else Some 1)"

declare get_hits.simps [simp del]

text \<open>
  The text \<^verbatim>\<open>output\<close> is kept as the list of the strings that \<^verbatim>\<open>output += ...\<close>
  appended, in order: the records of the report. The text returned is their
  concatenation.

  The inner loop, \<^verbatim>\<open>for i, _ in enumerate(token_lines, 1)\<close>, carries \<^verbatim>\<open>output\<close> and
  \<^verbatim>\<open>lines_hit\<close>.
\<close>

fun da_loop ::
  "analysis \<Rightarrow> int \<Rightarrow> token_line list \<Rightarrow> string list \<times> int \<Rightarrow> string list \<times> int" where
  "da_loop analysis i [] (out, lines_hit) = (out, lines_hit)"
| "da_loop analysis i (t # token_lines) (out, lines_hit) =
     (case get_hits i analysis of
        None \<Rightarrow> da_loop analysis (i + 1) token_lines (out, lines_hit)
      | Some hits \<Rightarrow>
          da_loop analysis (i + 1) token_lines
            (out @ [da_record i hits],
             if hits > 0 then lines_hit + 1 else lines_hit))"

text \<open>
  The body of the \<^verbatim>\<open>try\<close>. The calls that can raise (\<^verbatim>\<open>_analyze\<close>, then
  \<^verbatim>\<open>source_token_lines()\<close>) come before the first \<^verbatim>\<open>output +=\<close>.
  \<^verbatim>\<open>source_token_lines()\<close> reads the source when it is called, and its exception is
  taken as raised by that call; \<open>get_hits\<close>, \<^verbatim>\<open>len\<close> and the formatting do not raise.
\<close>

definition try_body :: "converter \<Rightarrow> reporter_item \<Rightarrow> string list \<Rightarrow> error + string list" where
  "try_body self file_reporter out =
     (case cov_analyze (cov_obj self) (unpack_morf file_reporter) of
        Inl e \<Rightarrow> Inl e
      | Inr analysis \<Rightarrow>
          (let fr = unpack_file_reporter file_reporter in
           case source_token_lines fr of
             Inl e \<Rightarrow> Inl e
           | Inr token_lines \<Rightarrow>
               (let fname = (if relative_path self then relative_filename fr else filename fr);
                    out = out @ [''TN:'' @ nl];
                    out = out @ [''SF:'' @ fname @ nl];
                    (out, lines_hit) = da_loop analysis 1 token_lines (out, 0);
                    out = out @ [''LF:'' @ str_int (int (fcard (statements analysis))) @ nl];
                    out = out @ [''LH:'' @ str_int lines_hit @ nl];
                    out = out @ [''end_of_record'' @ nl]
                in Inr out)))"

text \<open>
  The \<^verbatim>\<open>except NotPython\<close> clause reads \<^verbatim>\<open>should_be_python()\<close> and \<^verbatim>\<open>filename\<close> from
  the element of the list itself, not from the unpacked reporter: on a tuple the
  attribute does not exist.
\<close>

fun item_should_be_python :: "reporter_item \<Rightarrow> error + bool" where
  "item_should_be_python (Bare fr) = Inr (should_be_python fr)"
| "item_should_be_python (Paired fr m) = Inl AttributeError"

fun item_filename :: "reporter_item \<Rightarrow> error + string" where
  "item_filename (Bare fr) = Inr (filename fr)"
| "item_filename (Paired fr m) = Inl AttributeError"

text \<open>
  The loop over the sorted reporters, with the output so far and the warnings given
  to \<^verbatim>\<open>_warn\<close> so far. An exception that leaves the loop leaves the function.
\<close>

fun lcov_loop ::
  "converter \<Rightarrow> reporter_item list \<Rightarrow> string list \<times> string list \<Rightarrow>
     (error + string list) \<times> string list" where
  "lcov_loop self [] (out, warns) = (Inr out, warns)"
| "lcov_loop self (file_reporter # rest) (out, warns) =
     (case try_body self file_reporter out of
        Inr out' \<Rightarrow> lcov_loop self rest (out', warns)
      | Inl NoSource \<Rightarrow>
          (if \<not> ignore_errors (cov_config (cov_obj self)) then (Inl NoSource, warns)
           else lcov_loop self rest (out, warns))
      | Inl NotPython \<Rightarrow>
          (case item_should_be_python file_reporter of
             Inl e \<Rightarrow> (Inl e, warns)
           | Inr sbp \<Rightarrow>
               (if sbp then
                  (if ignore_errors (cov_config (cov_obj self)) then
                     (case item_filename file_reporter of
                        Inl e \<Rightarrow> (Inl e, warns)
                      | Inr name \<Rightarrow>
                          lcov_loop self rest
                            (out, warns @ [''Couldn't parse Python file '' @ [CHR 0x27] @ name @ [CHR 0x27]]))
                   else (Inl NotPython, warns))
                else lcov_loop self rest (out, warns)))
      | Inl e \<Rightarrow> (Inl e, warns))"

definition get_lcov_records :: "converter \<Rightarrow> (error + string list) \<times> string list" where
  "get_lcov_records self =
     (case get_file_reporters self of
        Inl e \<Rightarrow> (Inl e, [])
      | Inr file_reporters \<Rightarrow> lcov_loop self (sorted_reporters file_reporters) ([], []))"

definition get_lcov :: "converter \<Rightarrow> (error + string) \<times> string list" where
  "get_lcov self =
     (case get_lcov_records self of
        (Inl e, warns) \<Rightarrow> (Inl e, warns)
      | (Inr out, warns) \<Rightarrow> (Inr (concat out), warns))"

text \<open>
  The outside world of \<^verbatim>\<open>print_lcov\<close> and \<^verbatim>\<open>create_lcov\<close>: the standard output and
  the files, with the paths that can be opened for writing. \<^verbatim>\<open>open(path, "w")\<close>
  truncates the file; the \<^verbatim>\<open>ascii\<close> codec then refuses a character above 127.
\<close>

record world =
  stdout :: string
  files :: "string \<rightharpoonup> string"
  writable :: "string \<Rightarrow> bool"

definition print_lcov :: "converter \<Rightarrow> world \<Rightarrow> (error + unit) \<times> string list \<times> world" where
  "print_lcov self w =
     (case get_lcov self of
        (Inl e, warns) \<Rightarrow> (Inl e, warns, w)
      | (Inr lcov_str, warns) \<Rightarrow> (Inr (), warns, w\<lparr>stdout := stdout w @ lcov_str @ nl\<rparr>))"

definition create_lcov ::
  "converter \<Rightarrow> string \<Rightarrow> world \<Rightarrow> (error + unit) \<times> string list \<times> world" where
  "create_lcov self output_file_path w =
     (case get_lcov self of
        (Inl e, warns) \<Rightarrow> (Inl e, warns, w)
      | (Inr lcov_str, warns) \<Rightarrow>
          (if \<not> writable w output_file_path then (Inl IOError, warns, w)
           else if list_all (\<lambda>c. (of_char c :: nat) < 128) lcov_str
             then (Inr (), warns, w\<lparr>files := (files w)(output_file_path \<mapsto> lcov_str)\<rparr>)
           else (Inl UnicodeEncodeError, warns,
                 w\<lparr>files := (files w)(output_file_path \<mapsto> [])\<rparr>)))"

section \<open>Notions the claims are stated with\<close>

text \<open>
  The two list comprehensions of \<open>get_file_reporters\<close> as one predicate on an element
  of the list: it passes the include filter (no include pattern is configured, or one
  of them matches its path) and no omit pattern matches its path. Lemma
  \<open>get_file_reporters_eq\<close> below proves that this is what the source computes.
\<close>

definition kept :: "coverage \<Rightarrow> reporter_item \<Rightarrow> bool" where
  "kept cov it =
     ((report_include (cov_config cov) = [] \<or>
         list_ex (\<lambda>p. cov_pattern_match cov p (filename (unpack_file_reporter it)))
           (report_include (cov_config cov))) \<and>
      \<not> list_ex (\<lambda>p. cov_pattern_match cov p (filename (unpack_file_reporter it)))
           (report_omit (cov_config cov)))"

text \<open>
  Two answers of the provider hold the same dataset when they list the same files,
  each path once, in whatever order.
\<close>

fun same_dataset :: "reporters \<Rightarrow> reporters \<Rightarrow> bool" where
  "same_dataset (Reporters xs) (Reporters ys) =
     (mset xs = mset ys \<and> distinct (map filename xs))"
| "same_dataset (Pairs ps) (Pairs qs) =
     (mset ps = mset qs \<and> distinct (map (\<lambda>(fr, m). (filename fr, m)) ps))"
| "same_dataset (Reporters xs) (Pairs qs) = False"
| "same_dataset (Pairs ps) (Reporters ys) = False"

section \<open>Example data\<close>

text \<open>
  A reporter whose file has \<open>n\<close> physical lines, and a converter over a given
  configuration, list of reporters and analysis. Its patterns match a path literally.
\<close>

definition example_reporter :: "string \<Rightarrow> nat \<Rightarrow> file_reporter" where
  "example_reporter name n =
     \<lparr>filename = name, relative_filename = name,
      source_token_lines = Inr (replicate n []), should_be_python = True\<rparr>"

definition example_converter ::
  "config \<Rightarrow> reporters \<Rightarrow> (morf \<Rightarrow> error + analysis) \<Rightarrow> converter" where
  "example_converter cfg frs an =
     \<lparr>relative_path = False,
      cov_obj = \<lparr>cov_config = cfg, cov_get_file_reporters = frs, cov_analyze = an,
                 cov_pattern_match = (\<lambda>p path. p = path)\<rparr>\<rparr>"

definition no_filters :: "bool \<Rightarrow> config" where
  "no_filters ign = \<lparr>report_include = [], report_omit = [], ignore_errors = ign\<rparr>"

text \<open>
  Three files of which \<^verbatim>\<open>b.py\<close> has lost its source, with errors ignored; two files
  of which the second has lost its source, with errors fatal; a world in which every
  path can be written.
\<close>

definition example_three :: converter where
  "example_three =
     example_converter (no_filters True)
       (Reporters [example_reporter ''c.py'' 1, example_reporter ''a.py'' 1,
                   example_reporter ''b.py'' 1])
       (\<lambda>m. if m = MorfReporter (example_reporter ''b.py'' 1) then Inl NoSource
            else Inr \<lparr>statements = {|1|}, missing = {||}\<rparr>)"

definition example_failing :: converter where
  "example_failing =
     example_converter (no_filters False)
       (Reporters [example_reporter ''a.py'' 1, example_reporter ''b.py'' 1])
       (\<lambda>m. if m = MorfReporter (example_reporter ''b.py'' 1) then Inl NoSource
            else Inr \<lparr>statements = {|1|}, missing = {||}\<rparr>)"

definition example_world :: world where
  "example_world = \<lparr>stdout = [], files = Map.empty, writable = (\<lambda>p. True)\<rparr>"


section \<open>Formatting integers\<close>

lemma str_nat_nonempty: "str_nat n \<noteq> []"
  by (subst str_nat.simps) simp

lemma char_of_digit_inj:
  "a < 10 \<Longrightarrow> b < 10 \<Longrightarrow> (char_of (48 + a :: nat) :: char) = char_of (48 + b) \<Longrightarrow> a = b"
proof -
  assume a: "a < 10" and b: "b < 10" and e: "(char_of (48 + a) :: char) = char_of (48 + b)"
  from e have "(of_char (char_of (48 + a) :: char) :: nat) = of_char (char_of (48 + b) :: char)"
    by simp
  with a b show "a = b" by simp
qed

lemma str_nat_inj: "str_nat n = str_nat m \<Longrightarrow> n = m"
proof (induction n arbitrary: m rule: str_nat.induct)
  case (1 n)
  show ?case
  proof (cases "n < 10")
    case True
    then have sn: "str_nat n = [char_of (48 + n)]" by (subst str_nat.simps) simp
    show ?thesis
    proof (cases "m < 10")
      case mt: True
      then have "str_nat m = [char_of (48 + m)]" by (subst str_nat.simps) simp
      with sn "1.prems" True mt show ?thesis by (auto dest: char_of_digit_inj)
    next
      case False
      then have "str_nat m = str_nat (m div 10) @ [char_of (48 + m mod 10)]"
        by (subst str_nat.simps) simp
      with sn "1.prems" str_nat_nonempty [of "m div 10"] show ?thesis by simp
    qed
  next
    case False
    then have sn: "str_nat n = str_nat (n div 10) @ [char_of (48 + n mod 10)]"
      by (subst str_nat.simps) simp
    show ?thesis
    proof (cases "m < 10")
      case True
      then have "str_nat m = [char_of (48 + m)]" by (subst str_nat.simps) simp
      with sn "1.prems" str_nat_nonempty [of "n div 10"] show ?thesis by simp
    next
      case mf: False
      then have "str_nat m = str_nat (m div 10) @ [char_of (48 + m mod 10)]"
        by (subst str_nat.simps) simp
      with sn "1.prems" have e1: "str_nat (n div 10) = str_nat (m div 10)"
        and e2: "(char_of (48 + n mod 10) :: char) = char_of (48 + m mod 10)" by simp_all
      from "1.IH" [OF False e1] have d: "n div 10 = m div 10" .
      from e2 have "n mod 10 = m mod 10" by (auto dest: char_of_digit_inj)
      with d show ?thesis by (metis div_mult_mod_eq)
    qed
  qed
qed

lemma str_nat_chars: "c \<in> set (str_nat n) \<Longrightarrow> 48 \<le> (of_char c :: nat) \<and> (of_char c :: nat) \<le> 57"
proof (induction n rule: str_nat.induct)
  case (1 n)
  show ?case
  proof (cases "n < 10")
    case True
    then have "str_nat n = [char_of (48 + n)]" by (subst str_nat.simps) simp
    with "1.prems" True show ?thesis by simp
  next
    case False
    then have sn: "str_nat n = str_nat (n div 10) @ [char_of (48 + n mod 10)]"
      by (subst str_nat.simps) simp
    have "n mod 10 < 10" by simp
    then have "(48 + n mod 10) mod 256 = 48 + n mod 10" by simp
    with sn "1.prems" "1.IH" [OF False] show ?thesis by auto
  qed
qed

lemma str_int_inj: "str_int i = str_int j \<Longrightarrow> i = j"
proof -
  assume e: "str_int i = str_int j"
  have nominus: "\<And>n. hd (str_nat n) \<noteq> CHR ''-''"
  proof
    fix n assume h: "hd (str_nat n) = CHR ''-''"
    have "hd (str_nat n) \<in> set (str_nat n)" using str_nat_nonempty by simp
    from str_nat_chars [OF this] h show False by simp
  qed
  show "i = j"
  proof (cases "i < 0")
    case True
    show ?thesis
    proof (cases "j < 0")
      case jt: True
      with True e have "str_nat (nat (- i)) = str_nat (nat (- j))" by (simp add: str_int_def)
      then have "nat (- i) = nat (- j)" by (rule str_nat_inj)
      with True jt show ?thesis by simp
    next
      case False
      with True e have "CHR ''-'' # str_nat (nat (- i)) = str_nat (nat j)" by (simp add: str_int_def)
      then have "hd (str_nat (nat j)) = CHR ''-''" by (metis list.sel(1))
      with nominus show ?thesis by blast
    qed
  next
    case False
    show ?thesis
    proof (cases "j < 0")
      case True
      with False e have "CHR ''-'' # str_nat (nat (- j)) = str_nat (nat i)" by (simp add: str_int_def)
      then have "hd (str_nat (nat i)) = CHR ''-''" by (metis list.sel(1))
      with nominus show ?thesis by blast
    next
      case jf: False
      with False e have "str_nat (nat i) = str_nat (nat j)" by (simp add: str_int_def)
      then have "nat i = nat j" by (rule str_nat_inj)
      with False jf show ?thesis by simp
    qed
  qed
qed

lemma str_int_no_comma: "CHR '','' \<notin> set (str_int i)"
proof
  assume h: "CHR '','' \<in> set (str_int i)"
  then have "CHR '','' \<in> set (str_nat (nat (- i))) \<or> CHR '','' \<in> set (str_nat (nat i))"
    by (auto simp: str_int_def split: if_splits)
  then show False using str_nat_chars [of "CHR '',''"] by auto
qed

lemma split_at_sep:
  "c \<notin> set xs \<Longrightarrow> c \<notin> set xs' \<Longrightarrow> xs @ c # ys = xs' @ c # ys' \<Longrightarrow> xs = xs' \<and> ys = ys'"
proof (induction xs arbitrary: xs')
  case Nil
  then show ?case by (cases xs') auto
next
  case (Cons a xs)
  then show ?case by (cases xs') auto
qed

lemma da_record_inj: "da_record i h = da_record j k \<Longrightarrow> i = j \<and> h = k"
proof -
  assume "da_record i h = da_record j k"
  then have "str_int i @ CHR '','' # (str_int h @ nl) = str_int j @ CHR '','' # (str_int k @ nl)"
    by (simp add: da_record_def)
  from split_at_sep [OF str_int_no_comma str_int_no_comma this]
  show ?thesis by (auto dest: str_int_inj)
qed

section \<open>The block of one file\<close>

lemma da_loop_eq:
  "da_loop a i ts (out, h) =
     (out @ map (\<lambda>j. da_record j (the (get_hits j a)))
              (filter (\<lambda>j. get_hits j a \<noteq> None) [i .. i + int (length ts) - 1]),
      h + int (length (filter (\<lambda>j. \<exists>k. get_hits j a = Some k \<and> k > 0)
              [i .. i + int (length ts) - 1])))"
proof (induction ts arbitrary: i out h)
  case Nil
  then show ?case by simp
next
  case (Cons t ts)
  have u: "[i .. i + int (length (t # ts)) - 1] = i # [i + 1 .. i + 1 + int (length ts) - 1]"
    by (subst upto_rec1) (simp_all add: algebra_simps)
  show ?case
  proof (cases "get_hits i a")
    case None
    then show ?thesis unfolding u by (simp add: Cons.IH)
  next
    case (Some k)
    then show ?thesis unfolding u by (simp add: Cons.IH)
  qed
qed

lemma try_body_ok:
  assumes "cov_analyze (cov_obj self) (unpack_morf it) = Inr a"
    and "source_token_lines (unpack_file_reporter it) = Inr toks"
  shows "try_body self it out = Inr
     (out @ [''TN:'' @ nl,
        ''SF:'' @ (if relative_path self then relative_filename (unpack_file_reporter it)
                   else filename (unpack_file_reporter it)) @ nl]
      @ map (\<lambda>j. da_record j (the (get_hits j a)))
              (filter (\<lambda>j. get_hits j a \<noteq> None) [1 .. int (length toks)])
      @ [''LF:'' @ str_int (int (fcard (statements a))) @ nl,
         ''LH:'' @ str_int (int (length (filter (\<lambda>j. \<exists>k. get_hits j a = Some k \<and> k > 0)
              [1 .. int (length toks)]))) @ nl,
         ''end_of_record'' @ nl])"
  using assms by (simp add: try_body_def da_loop_eq Let_def)

lemma try_body_err1:
  "cov_analyze (cov_obj self) (unpack_morf it) = Inl e \<Longrightarrow> try_body self it out = Inl e"
  by (simp add: try_body_def)

lemma try_body_err2:
  "cov_analyze (cov_obj self) (unpack_morf it) = Inr a \<Longrightarrow>
   source_token_lines (unpack_file_reporter it) = Inl e \<Longrightarrow> try_body self it out = Inl e"
  by (simp add: try_body_def)

lemma filter_upto_sorted_list:
  assumes "fset S \<subseteq> {1 .. n}"
  shows "filter (\<lambda>j. j |\<in>| S) [1 .. n] = sorted_list_of_fset S"
proof -
  have "filter (\<lambda>j. j |\<in>| S) [1 .. n] = sorted_list_of_set (fset S)"
  proof (rule sorted_distinct_set_unique)
    show "set (filter (\<lambda>j. j |\<in>| S) [1 .. n]) = set (sorted_list_of_set (fset S))"
      using assms by auto
    show "sorted (filter (\<lambda>j. j |\<in>| S) [1 .. n])" by (simp add: sorted_wrt_filter)
    show "distinct (filter (\<lambda>j. j |\<in>| S) [1 .. n])" by simp
  qed simp_all
  then show ?thesis by (simp add: sorted_list_of_fset.rep_eq)
qed

lemma length_filter_upto_card:
  assumes "fset S \<subseteq> {1 .. n}"
  shows "length (filter (\<lambda>j. j |\<in>| S) [1 .. n]) = fcard S"
proof -
  have "length (filter (\<lambda>j. j |\<in>| S) [1 .. n]) = card (set (filter (\<lambda>j. j |\<in>| S) [1 .. n]))"
    by (rule distinct_card [symmetric]) simp
  also have "set (filter (\<lambda>j. j |\<in>| S) [1 .. n]) = fset S" using assms by auto
  finally show ?thesis by (simp add: fcard.rep_eq)
qed

lemma get_hits_None_iff:
  "(get_hits j a \<noteq> None) = (j |\<in>| missing a |\<union>| statements a)"
  by (simp add: get_hits.simps)

lemma get_hits_pos_iff:
  "(\<exists>k. get_hits j a = Some k \<and> k > 0) = (j |\<in>| statements a |-| missing a)"
  by (auto simp: get_hits.simps)

lemma get_hits_the:
  "j |\<in>| missing a |\<union>| statements a \<Longrightarrow>
   the (get_hits j a) = (if j |\<in>| missing a then 0 else 1)"
  by (auto simp: get_hits.simps)

lemma bounds_subset:
  assumes "S \<noteq> {||}" "\<forall>l. l |\<in>| S \<longrightarrow> 1 \<le> l" "Max (fset S) \<le> n"
  shows "fset S \<subseteq> {1 .. n}"
proof
  fix x assume x: "x \<in> fset S"
  then have "x \<le> Max (fset S)" by simp
  with assms(3) have "x \<le> n" by simp
  moreover from assms(2) x have "1 \<le> x" by simp
  ultimately show "x \<in> {1 .. n}" by simp
qed


lemma da_record_head: "da_record i h = CHR ''D'' # CHR ''A'' # CHR '':'' # str_int i @ '','' @ str_int h @ nl"
  by (simp add: da_record_def)

lemma da_in_block_iff:
  assumes an: "cov_analyze (cov_obj self) (unpack_morf it) = Inr a"
    and tk: "source_token_lines (unpack_file_reporter it) = Inr toks"
    and tb: "try_body self it [] = Inr recs"
  shows "(da_record i h \<in> set recs) = (1 \<le> i \<and> i \<le> int (length toks) \<and> get_hits i a = Some h)"
proof -
  let ?das = "map (\<lambda>j. da_record j (the (get_hits j a)))
                (filter (\<lambda>j. get_hits j a \<noteq> None) [1 .. int (length toks)])"
  from try_body_ok [OF an tk, of "[]"] tb
  have "(da_record i h \<in> set recs) = (da_record i h \<in> set ?das)"
    by (auto simp: da_record_head)
  also have "\<dots> = (1 \<le> i \<and> i \<le> int (length toks) \<and> get_hits i a = Some h)"
  proof
    assume "da_record i h \<in> set ?das"
    then obtain j where j: "1 \<le> j" "j \<le> int (length toks)" "get_hits j a \<noteq> None"
      and e: "da_record i h = da_record j (the (get_hits j a))" by auto
    from da_record_inj [OF e] j show "1 \<le> i \<and> i \<le> int (length toks) \<and> get_hits i a = Some h"
      by auto
  next
    assume r: "1 \<le> i \<and> i \<le> int (length toks) \<and> get_hits i a = Some h"
    then have "i \<in> set (filter (\<lambda>j. get_hits j a \<noteq> None) [1 .. int (length toks)])" by simp
    then have "da_record i (the (get_hits i a)) \<in> set ?das" unfolding set_map by (rule imageI)
    with r show "da_record i h \<in> set ?das" by simp
  qed
  finally show ?thesis .
qed


lemma try_body_within_lines:
  assumes an: "cov_analyze (cov_obj self) (unpack_morf it) = Inr a"
    and tk: "source_token_lines (unpack_file_reporter it) = Inr toks"
    and sub: "missing a |\<subseteq>| statements a"
    and S: "fset (statements a) \<subseteq> {1 .. int (length toks)}"
  shows "try_body self it out = Inr
     (out @ [''TN:'' @ nl,
        ''SF:'' @ (if relative_path self then relative_filename (unpack_file_reporter it)
                   else filename (unpack_file_reporter it)) @ nl]
      @ map (\<lambda>l. da_record l (if l |\<in>| missing a then 0 else 1))
          (sorted_list_of_fset (statements a))
      @ [''LF:'' @ str_int (int (fcard (statements a))) @ nl,
         ''LH:'' @ str_int (int (fcard (statements a |-| missing a))) @ nl,
         ''end_of_record'' @ nl])"
proof -
  let ?n = "int (length toks)"
  have un: "missing a |\<union>| statements a = statements a" using sub by auto
  have SM: "fset (statements a |-| missing a) \<subseteq> {1 .. ?n}" using S by auto
  have f1: "filter (\<lambda>j. get_hits j a \<noteq> None) [1 .. ?n] = sorted_list_of_fset (statements a)"
    by (simp only: get_hits_None_iff un filter_upto_sorted_list [OF S])
  have f2: "length (filter (\<lambda>j. \<exists>k. get_hits j a = Some k \<and> k > 0) [1 .. ?n])
              = fcard (statements a |-| missing a)"
    by (simp only: get_hits_pos_iff length_filter_upto_card [OF SM])
  have f3: "map (\<lambda>j. da_record j (the (get_hits j a))) (sorted_list_of_fset (statements a))
          = map (\<lambda>l. da_record l (if l |\<in>| missing a then 0 else 1))
              (sorted_list_of_fset (statements a))"
    by (rule map_cong) (simp_all add: get_hits_the sorted_list_of_fset.rep_eq)
  show ?thesis
    by (simp only: try_body_ok [OF an tk] f1 f2 f3)
qed

lemma count_missed_records:
  "length (filter (\<lambda>r. \<exists>i. r = da_record i 0)
       (map (\<lambda>l. da_record l (if l |\<in>| M then 0 else 1)) xs))
   = length (filter (\<lambda>l. l |\<in>| M) xs)"
proof (induction xs)
  case Nil
  then show ?case by simp
next
  case (Cons x xs)
  have "\<And>i. da_record x 1 \<noteq> da_record i 0" by (auto dest: da_record_inj)
  with Cons show ?case by auto
qed

lemma length_filter_sorted_list:
  assumes "M |\<subseteq>| S"
  shows "length (filter (\<lambda>l. l |\<in>| M) (sorted_list_of_fset S)) = fcard M"
proof -
  have "length (filter (\<lambda>l. l |\<in>| M) (sorted_list_of_fset S))
      = card (set (filter (\<lambda>l. l |\<in>| M) (sorted_list_of_fset S)))"
    by (rule distinct_card [symmetric]) (simp add: sorted_list_of_fset.rep_eq)
  also have "set (filter (\<lambda>l. l |\<in>| M) (sorted_list_of_fset S)) = fset M"
    using assms by (auto simp: sorted_list_of_fset.rep_eq)
  finally show ?thesis by (simp add: fcard.rep_eq)
qed

lemma fcard_minus_subset:
  assumes "M |\<subseteq>| S"
  shows "int (fcard (S |-| M)) = int (fcard S) - int (fcard M)"
proof -
  have "fset M \<subseteq> fset S" using assms by (simp add: less_eq_fset.rep_eq)
  then have "card (fset S - fset M) = card (fset S) - card (fset M)"
    by (simp add: card_Diff_subset)
  moreover have "card (fset M) \<le> card (fset S)"
    using \<open>fset M \<subseteq> fset S\<close> by (simp add: card_mono)
  ultimately show ?thesis by (simp add: fcard.rep_eq)
qed


lemmas example_simps =
  example_converter_def example_reporter_def no_filters_def

lemma str_int_numeral [simp]:
  "str_int 0 = ''0''" "str_int 1 = ''1''" "str_int 2 = ''2''" "str_int 3 = ''3''"
  "str_int 4 = ''4''" "str_int 5 = ''5''"
  by code_simp+


section \<open>Claims about the block of one file\<close>

text \<open>
  Claim C1. Take a file whose analysis and token lines are available, with a non-empty
  statement set \<open>S\<close>, a missed set \<open>M \<subseteq> S\<close>, and at least \<open>Max S\<close> token lines (the
  elements of \<open>S\<close> being line numbers, which count from 1). The records the converter
  appends for it are, in this order: \<^verbatim>\<open>TN:\<close>, \<^verbatim>\<open>SF:<filename>\<close>, one
  \<^verbatim>\<open>DA:<line>,<hit>\<close> for each element of \<open>S\<close> in ascending order, with hit 0 for a
  line of \<open>M\<close> and 1 otherwise, then \<^verbatim>\<open>LF:|S|\<close>, \<^verbatim>\<open>LH:|S - M|\<close> and
  \<^verbatim>\<open>end_of_record\<close>.
\<close>

theorem file_block_records:
  assumes an: "cov_analyze (cov_obj self) (unpack_morf it) = Inr a"
    and tk: "source_token_lines (unpack_file_reporter it) = Inr toks"
    and ne: "statements a \<noteq> {||}"
    and sub: "missing a |\<subseteq>| statements a"
    and pos: "\<forall>l. l |\<in>| statements a \<longrightarrow> 1 \<le> l"
    and mx: "Max (fset (statements a)) \<le> int (length toks)"
  shows "try_body self it out = Inr
     (out @ [''TN:'' @ nl,
        ''SF:'' @ (if relative_path self then relative_filename (unpack_file_reporter it)
                   else filename (unpack_file_reporter it)) @ nl]
      @ map (\<lambda>l. da_record l (if l |\<in>| missing a then 0 else 1))
          (sorted_list_of_fset (statements a))
      @ [''LF:'' @ str_int (int (fcard (statements a))) @ nl,
         ''LH:'' @ str_int (int (fcard (statements a |-| missing a))) @ nl,
         ''end_of_record'' @ nl])"
  using try_body_within_lines [OF an tk sub bounds_subset [OF ne pos mx]] .

theorem file_block_records_witness:
  "statements \<lparr>statements = {|1, 2, 3, 5|}, missing = {|2|}\<rparr> \<noteq> {||} \<and>
   missing \<lparr>statements = {|1, 2, 3, 5|}, missing = {|2|}\<rparr>
     |\<subseteq>| statements \<lparr>statements = {|1, 2, 3, 5|}, missing = {|2|}\<rparr> \<and>
   Max (fset {|1, 2, 3, 5 :: int|}) \<le> int (length (replicate 5 ([] :: token_line))) \<and>
   try_body
     (example_converter (no_filters False) (Reporters [example_reporter ''a.py'' 5])
        (\<lambda>m. Inr \<lparr>statements = {|1, 2, 3, 5|}, missing = {|2|}\<rparr>))
     (Bare (example_reporter ''a.py'' 5)) []
   = Inr [''TN:\<newline>'', ''SF:a.py\<newline>'', ''DA:1,1\<newline>'', ''DA:2,0\<newline>'', ''DA:3,1\<newline>'',
          ''DA:5,1\<newline>'', ''LF:4\<newline>'', ''LH:3\<newline>'', ''end_of_record\<newline>'']"
  using file_block_records
    [of "example_converter (no_filters False) (Reporters [example_reporter ''a.py'' 5])
           (\<lambda>m. Inr \<lparr>statements = {|1, 2, 3, 5|}, missing = {|2|}\<rparr>)"
        "Bare (example_reporter ''a.py'' 5)"
        "\<lparr>statements = {|1, 2, 3, 5|}, missing = {|2|}\<rparr>"
        "replicate 5 []" "[]"]
  by (simp add: example_simps sorted_list_of_fset.rep_eq fcard.rep_eq da_record_def nl_def)

text \<open>
  Claim C2. \<open>get_hits\<close> is a function of the line number and the analysis alone. Its
  three cases, read in the order the source tests them: a line of the missed set gives
  0; otherwise a line outside the statement set gives \<open>None\<close>; otherwise the line
  gives 1. For each physical line \<open>i\<close> of a file, the block has a \<^verbatim>\<open>DA:\<close> record for
  \<open>i\<close> exactly when \<open>get_hits i\<close> is not \<open>None\<close>, and that record carries the hit
  count \<open>get_hits\<close> returned.
\<close>

theorem get_hits_three_way:
  assumes an: "cov_analyze (cov_obj self) (unpack_morf it) = Inr a"
    and tk: "source_token_lines (unpack_file_reporter it) = Inr toks"
  shows "(l |\<in>| missing a \<longrightarrow> get_hits l a = Some 0) \<and>
         (l |\<notin>| missing a \<and> l |\<notin>| statements a \<longrightarrow> get_hits l a = None) \<and>
         (l |\<notin>| missing a \<and> l |\<in>| statements a \<longrightarrow> get_hits l a = Some 1) \<and>
         (\<exists>recs. try_body self it [] = Inr recs \<and>
            (\<forall>i. 1 \<le> i \<and> i \<le> int (length toks) \<longrightarrow>
               ((\<exists>hits. da_record i hits \<in> set recs) = (get_hits i a \<noteq> None)) \<and>
               (\<forall>hits. (da_record i hits \<in> set recs) = (get_hits i a = Some hits))))"
proof -
  from try_body_ok [OF an tk, of "[]"] obtain recs where tb: "try_body self it [] = Inr recs"
    by blast
  have "\<forall>i. 1 \<le> i \<and> i \<le> int (length toks) \<longrightarrow>
               ((\<exists>hits. da_record i hits \<in> set recs) = (get_hits i a \<noteq> None)) \<and>
               (\<forall>hits. (da_record i hits \<in> set recs) = (get_hits i a = Some hits))"
    by (auto simp: da_in_block_iff [OF an tk tb])
  with tb show ?thesis by (simp add: get_hits.simps)
qed

theorem get_hits_three_way_witness:
  "get_hits 2 \<lparr>statements = {|1, 2, 3, 5|}, missing = {|2|}\<rparr> = Some 0 \<and>
   get_hits 4 \<lparr>statements = {|1, 2, 3, 5|}, missing = {|2|}\<rparr> = None \<and>
   get_hits 1 \<lparr>statements = {|1, 2, 3, 5|}, missing = {|2|}\<rparr> = Some 1 \<and>
   (\<exists>recs. try_body
       (example_converter (no_filters False) (Reporters [example_reporter ''a.py'' 5])
          (\<lambda>m. Inr \<lparr>statements = {|1, 2, 3, 5|}, missing = {|2|}\<rparr>))
       (Bare (example_reporter ''a.py'' 5)) [] = Inr recs \<and>
     da_record 2 0 \<in> set recs \<and> da_record 1 1 \<in> set recs \<and>
     (\<forall>hits. da_record 4 hits \<notin> set recs))"
proof -
  let ?a = "\<lparr>statements = {|1, 2, 3, 5 :: int|}, missing = {|2|}\<rparr>"
  let ?cv = "example_converter (no_filters False) (Reporters [example_reporter ''a.py'' 5])
          (\<lambda>m. Inr ?a)"
  let ?it = "Bare (example_reporter ''a.py'' 5)"
  have an: "cov_analyze (cov_obj ?cv) (unpack_morf ?it) = Inr ?a" by (simp add: example_simps)
  have tk: "source_token_lines (unpack_file_reporter ?it) = Inr (replicate 5 [])"
    by (simp add: example_simps)
  have m2: "2 |\<in>| missing ?a" by simp
  have m4: "4 |\<notin>| missing ?a \<and> 4 |\<notin>| statements ?a" by simp
  have m1: "1 |\<notin>| missing ?a \<and> 1 |\<in>| statements ?a" by simp
  from get_hits_three_way [OF an tk, of 2] m2 have g2: "get_hits 2 ?a = Some 0" by blast
  from get_hits_three_way [OF an tk, of 4] m4 have g4: "get_hits 4 ?a = None" by blast
  from get_hits_three_way [OF an tk, of 1] m1 have g1: "get_hits 1 ?a = Some 1" by blast
  from get_hits_three_way [OF an tk, of 1] obtain recs where
    tb: "try_body ?cv ?it [] = Inr recs" and
    em: "\<forall>i. 1 \<le> i \<and> i \<le> int (length (replicate 5 ([] :: token_line))) \<longrightarrow>
               ((\<exists>hits. da_record i hits \<in> set recs) = (get_hits i ?a \<noteq> None)) \<and>
               (\<forall>hits. (da_record i hits \<in> set recs) = (get_hits i ?a = Some hits))"
    by blast
  from em [rule_format, of 2] g2 have r2: "da_record 2 0 \<in> set recs" by simp
  from em [rule_format, of 1] g1 have r1: "da_record 1 1 \<in> set recs" by simp
  from em [rule_format, of 4] g4 have r4: "\<forall>hits. da_record 4 hits \<notin> set recs" by simp
  from g2 g4 g1 tb r2 r1 r4 show ?thesis by blast
qed

text \<open>
  Claim C3 says, of every file with \<open>N\<close> statement lines of which \<open>M\<close> are missed and
  with no assumption on the number of token lines, that the block's \<^verbatim>\<open>LH:\<close> value is
  \<open>N - M\<close>. A file with statement lines 1, 2, 3, none missed, and two token lines
  gets \<^verbatim>\<open>LH:2\<close>, while \<open>N - M = 3\<close>: the loop only visits the lines the token
  lines number.
\<close>

theorem summary_counts_counterexample:
  "try_body
     (example_converter (no_filters False) (Reporters [example_reporter ''a.py'' 2])
        (\<lambda>m. Inr \<lparr>statements = {|1, 2, 3|}, missing = {||}\<rparr>))
     (Bare (example_reporter ''a.py'' 2)) []
   = Inr [''TN:\<newline>'', ''SF:a.py\<newline>'', ''DA:1,1\<newline>'', ''DA:2,1\<newline>'',
          ''LF:3\<newline>'', ''LH:2\<newline>'', ''end_of_record\<newline>''] \<and>
   int (fcard {|1, 2, 3 :: int|}) - int (fcard ({||} :: int fset)) = 3"
proof -
  let ?a = "\<lparr>statements = {|1, 2, 3 :: int|}, missing = {||}\<rparr>"
  let ?cv = "example_converter (no_filters False) (Reporters [example_reporter ''a.py'' 2])
          (\<lambda>m. Inr ?a)"
  let ?it = "Bare (example_reporter ''a.py'' 2)"
  have an: "cov_analyze (cov_obj ?cv) (unpack_morf ?it) = Inr ?a" by (simp add: example_simps)
  have tk: "source_token_lines (unpack_file_reporter ?it) = Inr (replicate 2 [])"
    by (simp add: example_simps)
  have "try_body ?cv ?it [] = Inr [''TN:\<newline>'', ''SF:a.py\<newline>'', ''DA:1,1\<newline>'', ''DA:2,1\<newline>'',
          ''LF:3\<newline>'', ''LH:2\<newline>'', ''end_of_record\<newline>'']"
    unfolding try_body_ok [OF an tk]
    by (simp add: example_simps get_hits.simps fcard.rep_eq da_record_def nl_def upto.simps)
  then show ?thesis by (simp add: fcard.rep_eq)
qed

text \<open>
  Claim C3, amended. For every file whose missed set is a subset of its statement set
  and whose statement line numbers all lie between 1 and the number of token lines,
  with \<open>N\<close> statement lines of which \<open>M\<close> are missed: the block is \<^verbatim>\<open>TN:\<close>, \<^verbatim>\<open>SF:\<close>,
  \<open>N\<close> \<^verbatim>\<open>DA:\<close> records, \<^verbatim>\<open>LF:N\<close>, \<^verbatim>\<open>LH:\<close> with the value \<open>N - M\<close>, and
  \<^verbatim>\<open>end_of_record\<close>; exactly \<open>M\<close> of the \<^verbatim>\<open>DA:\<close> records carry hit count 0.
\<close>

theorem summary_counts_within_lines:
  assumes an: "cov_analyze (cov_obj self) (unpack_morf it) = Inr a"
    and tk: "source_token_lines (unpack_file_reporter it) = Inr toks"
    and sub: "missing a |\<subseteq>| statements a"
    and S: "fset (statements a) \<subseteq> {1 .. int (length toks)}"
  shows "\<exists>sf das. try_body self it [] = Inr
           ([''TN:'' @ nl, ''SF:'' @ sf @ nl] @ das @
            [''LF:'' @ str_int (int (fcard (statements a))) @ nl,
             ''LH:'' @ str_int (int (fcard (statements a)) - int (fcard (missing a))) @ nl,
             ''end_of_record'' @ nl]) \<and>
         (\<forall>r \<in> set das. \<exists>i hits. r = da_record i hits) \<and>
         length das = fcard (statements a) \<and>
         length (filter (\<lambda>r. \<exists>i. r = da_record i 0) das) = fcard (missing a)"
proof -
  let ?das = "map (\<lambda>l. da_record l (if l |\<in>| missing a then 0 else 1))
                (sorted_list_of_fset (statements a))"
  let ?sf = "if relative_path self then relative_filename (unpack_file_reporter it)
             else filename (unpack_file_reporter it)"
  have 1: "try_body self it [] = Inr
           ([''TN:'' @ nl, ''SF:'' @ ?sf @ nl] @ ?das @
            [''LF:'' @ str_int (int (fcard (statements a))) @ nl,
             ''LH:'' @ str_int (int (fcard (statements a)) - int (fcard (missing a))) @ nl,
             ''end_of_record'' @ nl])"
    using try_body_within_lines [OF an tk sub S, of "[]"]
    by (simp only: fcard_minus_subset [OF sub] append_Nil)
  have 2: "\<forall>r \<in> set ?das. \<exists>i hits. r = da_record i hits" by auto
  have 3: "length ?das = fcard (statements a)"
    by (simp add: sorted_list_of_fset.rep_eq fcard.rep_eq)
  have 4: "length (filter (\<lambda>r. \<exists>i. r = da_record i 0) ?das) = fcard (missing a)"
    by (simp only: count_missed_records length_filter_sorted_list [OF sub])
  from 1 2 3 4 show ?thesis by blast
qed

theorem summary_counts_within_lines_witness:
  "missing \<lparr>statements = {|1, 2, 3, 5|}, missing = {|2|}\<rparr>
     |\<subseteq>| statements \<lparr>statements = {|1, 2, 3, 5|}, missing = {|2|}\<rparr> \<and>
   fset {|1, 2, 3, 5 :: int|} \<subseteq> {1 .. int (length (replicate 5 ([] :: token_line)))} \<and>
   (\<exists>sf das. try_body
       (example_converter (no_filters False) (Reporters [example_reporter ''a.py'' 5])
          (\<lambda>m. Inr \<lparr>statements = {|1, 2, 3, 5|}, missing = {|2|}\<rparr>))
       (Bare (example_reporter ''a.py'' 5)) []
     = Inr ([''TN:\<newline>'', ''SF:'' @ sf @ ''\<newline>''] @ das @
            [''LF:4\<newline>'', ''LH:3\<newline>'', ''end_of_record\<newline>'']) \<and>
     length das = 4 \<and> length (filter (\<lambda>r. \<exists>i. r = da_record i 0) das) = 1)"
proof -
  let ?a = "\<lparr>statements = {|1, 2, 3, 5 :: int|}, missing = {|2|}\<rparr>"
  let ?cv = "example_converter (no_filters False) (Reporters [example_reporter ''a.py'' 5])
          (\<lambda>m. Inr ?a)"
  let ?it = "Bare (example_reporter ''a.py'' 5)"
  have an: "cov_analyze (cov_obj ?cv) (unpack_morf ?it) = Inr ?a" by (simp add: example_simps)
  have tk: "source_token_lines (unpack_file_reporter ?it) = Inr (replicate 5 [])"
    by (simp add: example_simps)
  have sub: "missing ?a |\<subseteq>| statements ?a" by simp
  have S: "fset (statements ?a) \<subseteq> {1 .. int (length (replicate 5 ([] :: token_line)))}"
    by simp
  have n: "int (fcard (statements ?a)) = 4" "int (fcard (missing ?a)) = 1"
    by (simp_all add: fcard.rep_eq)
  from summary_counts_within_lines [OF an tk sub S] obtain sf das where
    1: "try_body ?cv ?it [] = Inr
           ([''TN:'' @ nl, ''SF:'' @ sf @ nl] @ das @
            [''LF:'' @ str_int (int (fcard (statements ?a))) @ nl,
             ''LH:'' @ str_int (int (fcard (statements ?a)) - int (fcard (missing ?a))) @ nl,
             ''end_of_record'' @ nl])"
    and 3: "length das = fcard (statements ?a)"
    and 4: "length (filter (\<lambda>r. \<exists>i. r = da_record i 0) das) = fcard (missing ?a)"
    by blast
  from 1 have one: "try_body ?cv ?it []
     = Inr ([''TN:\<newline>'', ''SF:'' @ sf @ ''\<newline>''] @ das @
            [''LF:4\<newline>'', ''LH:3\<newline>'', ''end_of_record\<newline>''])"
    by (simp only: n) (simp add: nl_def)
  from 3 n have three: "length das = 4" by simp
  from 4 n have four: "length (filter (\<lambda>r. \<exists>i. r = da_record i 0) das) = 1" by simp
  from one three four have "\<exists>sf das. try_body ?cv ?it []
     = Inr ([''TN:\<newline>'', ''SF:'' @ sf @ ''\<newline>''] @ das @
            [''LF:4\<newline>'', ''LH:3\<newline>'', ''end_of_record\<newline>'']) \<and>
     length das = 4 \<and> length (filter (\<lambda>r. \<exists>i. r = da_record i 0) das) = 1"
    by blast
  with sub S show ?thesis by simp
qed

text \<open>
  Claim C4 says that a line outside the statement set never gets a \<^verbatim>\<open>DA:\<close> record,
  whether or not it is in the missed set. \<open>get_hits\<close> tests the missed set first: with
  statement set \<open>{1}\<close>, missed set \<open>{2}\<close> and two token lines, line 2 gets the record
  \<^verbatim>\<open>DA:2,0\<close>.
\<close>

theorem no_da_counterexample:
  "2 |\<notin>| statements \<lparr>statements = {|1|}, missing = {|2|}\<rparr> \<and>
   try_body
     (example_converter (no_filters False) (Reporters [example_reporter ''a.py'' 2])
        (\<lambda>m. Inr \<lparr>statements = {|1|}, missing = {|2|}\<rparr>))
     (Bare (example_reporter ''a.py'' 2)) []
   = Inr [''TN:\<newline>'', ''SF:a.py\<newline>'', ''DA:1,1\<newline>'', ''DA:2,0\<newline>'',
          ''LF:1\<newline>'', ''LH:1\<newline>'', ''end_of_record\<newline>''] \<and>
   da_record 2 0 = ''DA:2,0\<newline>''"
proof -
  let ?a = "\<lparr>statements = {|1 :: int|}, missing = {|2|}\<rparr>"
  let ?cv = "example_converter (no_filters False) (Reporters [example_reporter ''a.py'' 2])
          (\<lambda>m. Inr ?a)"
  let ?it = "Bare (example_reporter ''a.py'' 2)"
  have an: "cov_analyze (cov_obj ?cv) (unpack_morf ?it) = Inr ?a" by (simp add: example_simps)
  have tk: "source_token_lines (unpack_file_reporter ?it) = Inr (replicate 2 [])"
    by (simp add: example_simps)
  have "try_body ?cv ?it [] = Inr [''TN:\<newline>'', ''SF:a.py\<newline>'', ''DA:1,1\<newline>'', ''DA:2,0\<newline>'',
          ''LF:1\<newline>'', ''LH:1\<newline>'', ''end_of_record\<newline>'']"
    unfolding try_body_ok [OF an tk]
    by (simp add: example_simps get_hits.simps fcard.rep_eq da_record_def nl_def upto.simps)
  then show ?thesis by (simp add: da_record_def nl_def)
qed

text \<open>
  Claim C4, amended. For every file and every line number that is absent from the
  file's statement set and from its missed set, the file's block has no \<^verbatim>\<open>DA:\<close>
  record for that line number, whatever the token lines are.
\<close>

theorem no_da_outside_statements_and_missing:
  assumes an: "cov_analyze (cov_obj self) (unpack_morf it) = Inr a"
    and tk: "source_token_lines (unpack_file_reporter it) = Inr toks"
    and ls: "l |\<notin>| statements a"
    and lm: "l |\<notin>| missing a"
  shows "\<exists>recs. try_body self it [] = Inr recs \<and> (\<forall>hits. da_record l hits \<notin> set recs)"
proof -
  from try_body_ok [OF an tk, of "[]"] obtain recs where tb: "try_body self it [] = Inr recs"
    by blast
  from ls lm have "get_hits l a = None" by (simp add: get_hits.simps)
  then have "\<forall>hits. da_record l hits \<notin> set recs" by (simp add: da_in_block_iff [OF an tk tb])
  with tb show ?thesis by blast
qed

theorem no_da_outside_statements_and_missing_witness:
  "4 |\<notin>| statements \<lparr>statements = {|1, 2, 3, 5|}, missing = {|2|}\<rparr> \<and>
   4 |\<notin>| missing \<lparr>statements = {|1, 2, 3, 5|}, missing = {|2|}\<rparr> \<and>
   (\<exists>recs. try_body
       (example_converter (no_filters False) (Reporters [example_reporter ''a.py'' 5])
          (\<lambda>m. Inr \<lparr>statements = {|1, 2, 3, 5|}, missing = {|2|}\<rparr>))
       (Bare (example_reporter ''a.py'' 5)) [] = Inr recs \<and>
     (\<forall>hits. da_record 4 hits \<notin> set recs))"
  using no_da_outside_statements_and_missing
    [of "example_converter (no_filters False) (Reporters [example_reporter ''a.py'' 5])
           (\<lambda>m. Inr \<lparr>statements = {|1, 2, 3, 5|}, missing = {|2|}\<rparr>)"
        "Bare (example_reporter ''a.py'' 5)"
        "\<lparr>statements = {|1, 2, 3, 5|}, missing = {|2|}\<rparr>"
        "replicate 5 []" 4]
  by (simp add: example_simps)

section \<open>The loop over the files\<close>

lemma try_body_out:
  "try_body self it out = (case try_body self it [] of Inl e \<Rightarrow> Inl e | Inr b \<Rightarrow> Inr (out @ b))"
proof (cases "cov_analyze (cov_obj self) (unpack_morf it)")
  case (Inl e)
  then show ?thesis by (simp add: try_body_err1)
next
  case (Inr a)
  show ?thesis
  proof (cases "source_token_lines (unpack_file_reporter it)")
    case (Inl e)
    with Inr show ?thesis by (simp add: try_body_err2)
  next
    case tk: (Inr toks)
    show ?thesis by (simp add: try_body_ok [OF Inr tk])
  qed
qed

lemma lcov_loop_ok:
  "try_body self it [] = Inr b \<Longrightarrow>
   lcov_loop self (it # rest) (out, warns) = lcov_loop self rest (out @ b, warns)"
  by (subst lcov_loop.simps, subst try_body_out) simp

lemma lcov_loop_no_source:
  "try_body self it [] = Inl NoSource \<Longrightarrow>
   lcov_loop self (it # rest) (out, warns) =
     (if ignore_errors (cov_config (cov_obj self)) then lcov_loop self rest (out, warns)
      else (Inl NoSource, warns))"
  by (subst lcov_loop.simps, subst try_body_out) simp

lemma lcov_loop_not_python:
  "try_body self it [] = Inl NotPython \<Longrightarrow>
   lcov_loop self (it # rest) (out, warns) =
     (case item_should_be_python it of
        Inl e \<Rightarrow> (Inl e, warns)
      | Inr sbp \<Rightarrow>
          (if sbp then
             (if ignore_errors (cov_config (cov_obj self)) then
                (case item_filename it of
                   Inl e \<Rightarrow> (Inl e, warns)
                 | Inr name \<Rightarrow>
                     lcov_loop self rest
                       (out, warns @ [''Couldn't parse Python file '' @ [CHR 0x27] @ name @ [CHR 0x27]]))
              else (Inl NotPython, warns))
           else lcov_loop self rest (out, warns)))"
  by (subst lcov_loop.simps, subst try_body_out) simp

lemma items_comprehension: "items (comprehension keep frs) = filter keep (items frs)"
  by (cases frs) (simp_all add: filter_map comp_def case_prod_unfold)

lemma comprehension_comprehension:
  "comprehension P (comprehension Q frs) = comprehension (\<lambda>x. Q x \<and> P x) frs"
  by (cases frs) (auto simp: case_prod_unfold intro: filter_cong)

lemma mset_sorted_reporters: "mset (sorted_reporters frs) = mset (items frs)"
  by (cases frs) simp_all

lemma set_sorted_reporters: "set (sorted_reporters frs) = set (items frs)"
  by (cases frs) simp_all


lemma comprehension_True: "comprehension (\<lambda>x. True) frs = frs"
  by (cases frs) simp_all

lemma get_file_reporters_eq:
  "get_file_reporters self =
     (if filter (kept (cov_obj self)) (items (cov_get_file_reporters (cov_obj self))) = []
      then Inl (CoverageException ''No data to report.'')
      else Inr (comprehension (kept (cov_obj self)) (cov_get_file_reporters (cov_obj self))))"
proof -
  let ?c = "cov_obj self"
  let ?m = "\<lambda>ps it. list_ex (\<lambda>p. cov_pattern_match ?c p (filename (unpack_file_reporter it))) ps"
  have k: "kept ?c = (\<lambda>x. (report_include (cov_config ?c) = [] \<or> ?m (report_include (cov_config ?c)) x)
              \<and> \<not> ?m (report_omit (cov_config ?c)) x)"
    by (rule ext) (simp add: kept_def)
  show ?thesis
    unfolding k
    by (cases "report_include (cov_config ?c) = []"; cases "report_omit (cov_config ?c) = []")
       (simp_all add: get_file_reporters_def GlobMatcher_compat_def Let_def items_comprehension
          comprehension_comprehension comprehension_True)
qed

lemma lcov_loop_ignore:
  assumes ig: "ignore_errors (cov_config (cov_obj self))"
    and ok: "\<forall>it \<in> set its. try_body self it [] = Inl NoSource \<or> (\<exists>b. try_body self it [] = Inr b)"
  shows "lcov_loop self its (out, warns) =
     (Inr (out @ concat (map (\<lambda>it. projr (try_body self it []))
                          (filter (\<lambda>it. try_body self it [] \<noteq> Inl NoSource) its))), warns)"
  using ok
proof (induction its arbitrary: out)
  case Nil
  then show ?case by simp
next
  case (Cons it its)
  from Cons.prems have rest:
    "\<forall>it \<in> set its. try_body self it [] = Inl NoSource \<or> (\<exists>b. try_body self it [] = Inr b)"
    by simp
  from Cons.prems consider "try_body self it [] = Inl NoSource"
    | b where "try_body self it [] = Inr b" by auto
  then show ?case
  proof cases
    case 1
    then show ?thesis
      by (simp only: lcov_loop_no_source [OF 1] ig if_True Cons.IH [OF rest]) simp
  next
    case 2
    then show ?thesis
      by (simp only: lcov_loop_ok [OF 2] Cons.IH [OF rest]) simp
  qed
qed

lemma try_body_no_source_iff:
  assumes "cov_analyze (cov_obj self) (unpack_morf it) = Inl NoSource \<or>
           (\<exists>a toks. cov_analyze (cov_obj self) (unpack_morf it) = Inr a \<and>
                      source_token_lines (unpack_file_reporter it) = Inr toks)"
  shows "(try_body self it [] = Inl NoSource) =
           (cov_analyze (cov_obj self) (unpack_morf it) = Inl NoSource)"
    and "try_body self it [] = Inl NoSource \<or> (\<exists>b. try_body self it [] = Inr b)"
  using assms by (auto simp: try_body_err1 try_body_ok)

lemma length2_list: "length xs = 2 \<Longrightarrow> \<exists>a b. xs = [a, b]"
  by (cases xs; cases "tl xs") auto

lemma try_body_cong:
  assumes r: "relative_path s1 = relative_path s2"
    and a: "cov_analyze (cov_obj s1) = cov_analyze (cov_obj s2)"
  shows "try_body s1 it out = try_body s2 it out"
  unfolding try_body_def r a ..

lemma lcov_loop_cong:
  assumes r: "relative_path s1 = relative_path s2"
    and a: "cov_analyze (cov_obj s1) = cov_analyze (cov_obj s2)"
    and c: "cov_config (cov_obj s1) = cov_config (cov_obj s2)"
  shows "lcov_loop s1 its (out, warns) = lcov_loop s2 its (out, warns)"
proof (induction its arbitrary: out warns)
  case Nil
  then show ?case by simp
next
  case (Cons it its)
  show ?case
    by (simp add: try_body_cong [OF r a] c Cons.IH
          split: sum.split error.split)
qed

lemma get_lcov_cong:
  assumes r: "relative_path s1 = relative_path s2"
    and a: "cov_analyze (cov_obj s1) = cov_analyze (cov_obj s2)"
    and c: "cov_config (cov_obj s1) = cov_config (cov_obj s2)"
    and e: "map_sum id sorted_reporters (get_file_reporters s1) =
            map_sum id sorted_reporters (get_file_reporters s2)"
  shows "get_lcov s1 = get_lcov s2"
proof -
  have "get_lcov_records s1 = get_lcov_records s2"
    using e
    by (cases "get_file_reporters s1"; cases "get_file_reporters s2")
       (simp_all add: get_lcov_records_def lcov_loop_cong [OF r a c])
  then show ?thesis by (simp add: get_lcov_def)
qed

lemma kept_eq:
  "kept cov it =
     ((report_include (cov_config cov) = [] \<or>
        GlobMatcher_compat cov (report_include (cov_config cov)) ''report_include''
          (filename (unpack_file_reporter it))) \<and>
      \<not> GlobMatcher_compat cov (report_omit (cov_config cov)) ''report_omit''
          (filename (unpack_file_reporter it)))"
  by (simp add: kept_def GlobMatcher_compat_def)

lemma sort_key_perm:
  fixes f :: "'a \<Rightarrow> 'k::linorder"
  assumes m: "mset xs = mset ys" and d: "distinct (map f xs)"
  shows "sort_key f xs = sort_key f ys"
proof (rule sort_key_inj_key_eq)
  show "mset xs = mset (sort_key f ys)" using m by simp
  show "inj_on f (set xs)" using d by (simp add: distinct_map)
  show "sorted (map f (sort_key f ys))" by simp
qed

lemma sort_key_filter_perm:
  fixes f :: "'a \<Rightarrow> 'k::linorder"
  assumes m: "mset xs = mset ys" and d: "distinct (map f xs)"
  shows "sort_key f (filter P xs) = sort_key f (filter P ys)"
proof (rule sort_key_perm)
  show "mset (filter P xs) = mset (filter P ys)" using m by (simp only: mset_filter)
  show "distinct (map f (filter P xs))" using d by (rule distinct_map_filter)
qed

lemma same_dataset_sorted:
  assumes "same_dataset frs frs'"
  shows "sorted_reporters (comprehension P frs) = sorted_reporters (comprehension P frs')"
  using assms
  by (cases frs; cases frs') (simp_all add: sort_key_filter_perm)

lemma same_dataset_set:
  assumes "same_dataset frs frs'"
  shows "set (items frs) = set (items frs')"
  using assms
  by (cases frs; cases frs') (auto dest: mset_eq_setD)

lemma example_block:
  assumes "cov_analyze (cov_obj self) (unpack_morf (Bare (example_reporter name 1)))
             = Inr \<lparr>statements = {|1|}, missing = {||}\<rparr>"
    and "\<not> relative_path self"
  shows "try_body self (Bare (example_reporter name 1)) [] =
     Inr [''TN:\<newline>'', ''SF:'' @ name @ ''\<newline>'', ''DA:1,1\<newline>'', ''LF:1\<newline>'', ''LH:1\<newline>'',
          ''end_of_record\<newline>'']"
proof -
  have tk: "source_token_lines (unpack_file_reporter (Bare (example_reporter name 1)))
              = Inr (replicate 1 [])"
    by (simp add: example_simps)
  show ?thesis
    unfolding try_body_ok [OF assms(1) tk]
    using assms(2)
    by (simp add: example_simps get_hits.simps fcard.rep_eq da_record_def nl_def upto.simps)
qed

lemma example_failing_get_lcov: "get_lcov example_failing = (Inl NoSource, [])"
proof -
  have rel: "\<not> relative_path example_failing" by (simp add: example_failing_def example_simps)
  have g: "get_file_reporters example_failing =
             Inr (Reporters [example_reporter ''a.py'' 1, example_reporter ''b.py'' 1])"
    by (simp add: get_file_reporters_eq kept_def example_failing_def example_simps)
  have srt: "sorted_reporters (Reporters [example_reporter ''a.py'' 1, example_reporter ''b.py'' 1])
           = [Bare (example_reporter ''a.py'' 1), Bare (example_reporter ''b.py'' 1)]"
    by (simp add: example_simps)
  have ba: "try_body example_failing (Bare (example_reporter ''a.py'' 1)) [] =
     Inr [''TN:\<newline>'', ''SF:'' @ ''a.py'' @ ''\<newline>'', ''DA:1,1\<newline>'', ''LF:1\<newline>'', ''LH:1\<newline>'',
          ''end_of_record\<newline>'']"
    by (rule example_block [OF _ rel]) (simp add: example_failing_def example_simps)
  have bb: "try_body example_failing (Bare (example_reporter ''b.py'' 1)) [] = Inl NoSource"
    by (rule try_body_err1) (simp add: example_failing_def example_simps)
  have ig: "\<not> ignore_errors (cov_config (cov_obj example_failing))"
    by (simp add: example_failing_def example_simps)
  have "get_lcov_records example_failing = (Inl NoSource, [])"
    by (simp only: get_lcov_records_def g srt sum.case lcov_loop_ok [OF ba]
          lcov_loop_no_source [OF bb] ig if_False)
  then show ?thesis by (simp add: get_lcov_def)
qed

lemma not_python_bare_skipped:
  assumes "cov_analyze (cov_obj self) (unpack_morf (Bare fr)) = Inl NotPython"
    and "\<not> should_be_python fr"
  shows "lcov_loop self (Bare fr # rest) (out, warns) = lcov_loop self rest (out, warns)"
  using assms by (simp add: lcov_loop_not_python try_body_err1)

section \<open>Claims about the whole report\<close>

text \<open>
  Claim C5. With \<^verbatim>\<open>ignore_errors\<close> enabled and three eligible files, of which exactly
  one raises \<open>NoSource\<close> in its analysis while the analysis and the token lines of the
  other two succeed, \<open>get_lcov\<close> raises nothing, emits no warning, and returns exactly
  the blocks of the two successful files, in sorted order.
\<close>

theorem ignore_errors_skips_missing_source:
  assumes ig: "ignore_errors (cov_config (cov_obj self))"
    and el: "get_file_reporters self = Inr frs"
    and three: "length (items frs) = 3"
    and one: "length (filter (\<lambda>it. cov_analyze (cov_obj self) (unpack_morf it) = Inl NoSource)
                        (items frs)) = 1"
    and ok: "\<forall>it \<in> set (items frs).
               cov_analyze (cov_obj self) (unpack_morf it) \<noteq> Inl NoSource \<longrightarrow>
               (\<exists>a toks. cov_analyze (cov_obj self) (unpack_morf it) = Inr a \<and>
                          source_token_lines (unpack_file_reporter it) = Inr toks)"
  shows "\<exists>it1 it2 b1 b2.
           filter (\<lambda>it. cov_analyze (cov_obj self) (unpack_morf it) \<noteq> Inl NoSource)
             (sorted_reporters frs) = [it1, it2] \<and>
           try_body self it1 [] = Inr b1 \<and> try_body self it2 [] = Inr b2 \<and>
           get_lcov_records self = (Inr (b1 @ b2), []) \<and>
           get_lcov self = (Inr (concat b1 @ concat b2), [])"
proof -
  let ?ns = "\<lambda>it. cov_analyze (cov_obj self) (unpack_morf it) = Inl NoSource"
  let ?srt = "sorted_reporters frs"
  have each: "\<forall>it \<in> set ?srt. ?ns it \<or>
           (\<exists>a toks. cov_analyze (cov_obj self) (unpack_morf it) = Inr a \<and>
                      source_token_lines (unpack_file_reporter it) = Inr toks)"
    using ok by (auto simp: set_sorted_reporters)
  then have tb: "\<forall>it \<in> set ?srt. try_body self it [] = Inl NoSource \<or> (\<exists>b. try_body self it [] = Inr b)"
    using try_body_no_source_iff(2) by blast
  have feq: "filter (\<lambda>it. try_body self it [] \<noteq> Inl NoSource) ?srt = filter (\<lambda>it. \<not> ?ns it) ?srt"
    by (rule filter_cong) (use each try_body_no_source_iff(1) in auto)
  have "length (filter ?ns ?srt) = size (filter_mset ?ns (mset ?srt))"
    by (simp only: mset_filter [symmetric] size_mset)
  also have "\<dots> = length (filter ?ns (items frs))"
    by (simp only: mset_sorted_reporters mset_filter [symmetric] size_mset)
  finally have "length (filter ?ns ?srt) = 1" using one by simp
  moreover have "length ?srt = 3"
    using three by (metis mset_sorted_reporters size_mset)
  moreover have "length (filter ?ns ?srt) + length (filter (\<lambda>it. \<not> ?ns it) ?srt) = length ?srt"
    by (rule sum_length_filter_compl)
  ultimately have "length (filter (\<lambda>it. \<not> ?ns it) ?srt) = 2" by simp
  then obtain it1 it2 where f: "filter (\<lambda>it. \<not> ?ns it) ?srt = [it1, it2]"
    using length2_list by blast
  have "it1 \<in> set (filter (\<lambda>it. \<not> ?ns it) ?srt)" "it2 \<in> set (filter (\<lambda>it. \<not> ?ns it) ?srt)"
    unfolding f by simp_all
  then have m1: "it1 \<in> set ?srt" "\<not> ?ns it1" and m2: "it2 \<in> set ?srt" "\<not> ?ns it2" by simp_all
  from tb m1 each try_body_no_source_iff(1) obtain b1 where b1: "try_body self it1 [] = Inr b1"
    by (metis)
  from tb m2 each try_body_no_source_iff(1) obtain b2 where b2: "try_body self it2 [] = Inr b2"
    by (metis)
  have rec: "get_lcov_records self = (Inr (b1 @ b2), [])"
    by (simp add: get_lcov_records_def el lcov_loop_ignore [OF ig tb] feq f b1 b2)
  then have "get_lcov self = (Inr (concat b1 @ concat b2), [])"
    by (simp add: get_lcov_def)
  with f b1 b2 rec show ?thesis by blast
qed

theorem ignore_errors_skips_missing_source_witness:
  "ignore_errors (cov_config (cov_obj example_three)) \<and>
   get_file_reporters example_three =
     Inr (Reporters [example_reporter ''c.py'' 1, example_reporter ''a.py'' 1,
                     example_reporter ''b.py'' 1]) \<and>
   filter (\<lambda>it. cov_analyze (cov_obj example_three) (unpack_morf it) = Inl NoSource)
     (items (Reporters [example_reporter ''c.py'' 1, example_reporter ''a.py'' 1,
                        example_reporter ''b.py'' 1]))
     = [Bare (example_reporter ''b.py'' 1)] \<and>
   get_lcov example_three =
     (Inr (''TN:\<newline>SF:a.py\<newline>DA:1,1\<newline>LF:1\<newline>LH:1\<newline>end_of_record\<newline>'' @
           ''TN:\<newline>SF:c.py\<newline>DA:1,1\<newline>LF:1\<newline>LH:1\<newline>end_of_record\<newline>''), [])"
proof -
  let ?frs = "Reporters [example_reporter ''c.py'' 1, example_reporter ''a.py'' 1,
                         example_reporter ''b.py'' 1]"
  let ?ns = "\<lambda>it. cov_analyze (cov_obj example_three) (unpack_morf it) = Inl NoSource"
  have ig: "ignore_errors (cov_config (cov_obj example_three))"
    by (simp add: example_three_def example_simps)
  have el: "get_file_reporters example_three = Inr ?frs"
    by (simp add: get_file_reporters_eq kept_def example_three_def example_simps)
  have three: "length (items ?frs) = 3" by simp
  have flt: "filter ?ns (items ?frs) = [Bare (example_reporter ''b.py'' 1)]"
    by (simp add: example_three_def example_simps)
  then have one: "length (filter ?ns (items ?frs)) = 1" by simp
  have ok: "\<forall>it \<in> set (items ?frs). \<not> ?ns it \<longrightarrow>
               (\<exists>a toks. cov_analyze (cov_obj example_three) (unpack_morf it) = Inr a \<and>
                          source_token_lines (unpack_file_reporter it) = Inr toks)"
    by (simp add: example_three_def example_simps)
  have rel: "\<not> relative_path example_three" by (simp add: example_three_def example_simps)
  have srt: "filter (\<lambda>it. \<not> ?ns it) (sorted_reporters ?frs)
               = [Bare (example_reporter ''a.py'' 1), Bare (example_reporter ''c.py'' 1)]"
    by (simp add: example_three_def example_simps)
  have ba: "try_body example_three (Bare (example_reporter ''a.py'' 1)) [] =
     Inr [''TN:\<newline>'', ''SF:'' @ ''a.py'' @ ''\<newline>'', ''DA:1,1\<newline>'', ''LF:1\<newline>'', ''LH:1\<newline>'',
          ''end_of_record\<newline>'']"
    by (rule example_block [OF _ rel]) (simp add: example_three_def example_simps)
  have bc: "try_body example_three (Bare (example_reporter ''c.py'' 1)) [] =
     Inr [''TN:\<newline>'', ''SF:'' @ ''c.py'' @ ''\<newline>'', ''DA:1,1\<newline>'', ''LF:1\<newline>'', ''LH:1\<newline>'',
          ''end_of_record\<newline>'']"
    by (rule example_block [OF _ rel]) (simp add: example_three_def example_simps)
  from ignore_errors_skips_missing_source [OF ig el three one ok]
  obtain it1 it2 b1 b2 where
    f: "filter (\<lambda>it. \<not> ?ns it) (sorted_reporters ?frs) = [it1, it2]"
    and b1: "try_body example_three it1 [] = Inr b1"
    and b2: "try_body example_three it2 [] = Inr b2"
    and g: "get_lcov example_three = (Inr (concat b1 @ concat b2), [])"
    by blast
  from f srt have "it1 = Bare (example_reporter ''a.py'' 1)" "it2 = Bare (example_reporter ''c.py'' 1)"
    by simp_all
  with b1 b2 ba bc have
    "b1 = [''TN:\<newline>'', ''SF:'' @ ''a.py'' @ ''\<newline>'', ''DA:1,1\<newline>'', ''LF:1\<newline>'', ''LH:1\<newline>'',
          ''end_of_record\<newline>'']"
    "b2 = [''TN:\<newline>'', ''SF:'' @ ''c.py'' @ ''\<newline>'', ''DA:1,1\<newline>'', ''LF:1\<newline>'', ''LH:1\<newline>'',
          ''end_of_record\<newline>'']"
    by simp_all
  with g have "get_lcov example_three =
     (Inr (''TN:\<newline>SF:a.py\<newline>DA:1,1\<newline>LF:1\<newline>LH:1\<newline>end_of_record\<newline>'' @
           ''TN:\<newline>SF:c.py\<newline>DA:1,1\<newline>LF:1\<newline>LH:1\<newline>end_of_record\<newline>''), [])"
    by simp
  with ig el flt show ?thesis by blast
qed

text \<open>
  Claim C6. If every file of the dataset is dropped by the include filter or by the
  omit filter, \<open>get_file_reporters\<close> fails with the \<open>CoverageException\<close> whose message
  is \<^verbatim>\<open>No data to report.\<close>, and so do \<open>get_lcov\<close>, \<open>print_lcov\<close> and
  \<open>create_lcov\<close>, which leave the standard output and the files as they were.
\<close>

theorem no_data_to_report:
  assumes none: "\<forall>it \<in> set (items (cov_get_file_reporters (cov_obj self))).
      (report_include (cov_config (cov_obj self)) \<noteq> [] \<and>
       \<not> GlobMatcher_compat (cov_obj self) (report_include (cov_config (cov_obj self)))
            ''report_include'' (filename (unpack_file_reporter it))) \<or>
      GlobMatcher_compat (cov_obj self) (report_omit (cov_config (cov_obj self)))
            ''report_omit'' (filename (unpack_file_reporter it))"
  shows "get_file_reporters self = Inl (CoverageException ''No data to report.'') \<and>
         get_lcov self = (Inl (CoverageException ''No data to report.''), []) \<and>
         print_lcov self w = (Inl (CoverageException ''No data to report.''), [], w) \<and>
         create_lcov self output_file_path w =
           (Inl (CoverageException ''No data to report.''), [], w)"
proof -
  from none have "\<forall>it \<in> set (items (cov_get_file_reporters (cov_obj self))).
      \<not> kept (cov_obj self) it"
    by (auto simp: kept_eq)
  then have "filter (kept (cov_obj self)) (items (cov_get_file_reporters (cov_obj self))) = []"
    by (simp add: filter_empty_conv)
  then have g: "get_file_reporters self = Inl (CoverageException ''No data to report.'')"
    by (simp add: get_file_reporters_eq)
  then have l: "get_lcov self = (Inl (CoverageException ''No data to report.''), [])"
    by (simp add: get_lcov_def get_lcov_records_def)
  from g l show ?thesis by (simp add: print_lcov_def create_lcov_def)
qed

theorem no_data_to_report_witness:
  "items (Reporters [example_reporter ''tests/foo.py'' 1])
     = [Bare (example_reporter ''tests/foo.py'' 1)] \<and>
   \<not> GlobMatcher_compat
        (cov_obj (example_converter
           \<lparr>report_include = [''src/main.py''], report_omit = [], ignore_errors = False\<rparr>
           (Reporters [example_reporter ''tests/foo.py'' 1])
           (\<lambda>m. Inr \<lparr>statements = {|1|}, missing = {||}\<rparr>)))
        [''src/main.py''] ''report_include''
        (filename (unpack_file_reporter (Bare (example_reporter ''tests/foo.py'' 1)))) \<and>
   get_file_reporters
     (example_converter
        \<lparr>report_include = [''src/main.py''], report_omit = [], ignore_errors = False\<rparr>
        (Reporters [example_reporter ''tests/foo.py'' 1])
        (\<lambda>m. Inr \<lparr>statements = {|1|}, missing = {||}\<rparr>))
     = Inl (CoverageException ''No data to report.'') \<and>
   get_lcov
     (example_converter
        \<lparr>report_include = [''src/main.py''], report_omit = [], ignore_errors = False\<rparr>
        (Reporters [example_reporter ''tests/foo.py'' 1])
        (\<lambda>m. Inr \<lparr>statements = {|1|}, missing = {||}\<rparr>))
     = (Inl (CoverageException ''No data to report.''), []) \<and>
   create_lcov
     (example_converter
        \<lparr>report_include = [''src/main.py''], report_omit = [], ignore_errors = False\<rparr>
        (Reporters [example_reporter ''tests/foo.py'' 1])
        (\<lambda>m. Inr \<lparr>statements = {|1|}, missing = {||}\<rparr>))
     ''out.info'' example_world
     = (Inl (CoverageException ''No data to report.''), [], example_world)"
proof -
  let ?cv = "example_converter
        \<lparr>report_include = [''src/main.py''], report_omit = [], ignore_errors = False\<rparr>
        (Reporters [example_reporter ''tests/foo.py'' 1])
        (\<lambda>m. Inr \<lparr>statements = {|1|}, missing = {||}\<rparr>)"
  have h: "\<forall>it \<in> set (items (cov_get_file_reporters (cov_obj ?cv))).
      (report_include (cov_config (cov_obj ?cv)) \<noteq> [] \<and>
       \<not> GlobMatcher_compat (cov_obj ?cv) (report_include (cov_config (cov_obj ?cv)))
            ''report_include'' (filename (unpack_file_reporter it))) \<or>
      GlobMatcher_compat (cov_obj ?cv) (report_omit (cov_config (cov_obj ?cv)))
            ''report_omit'' (filename (unpack_file_reporter it))"
    by (simp add: example_simps GlobMatcher_compat_def)
  have i: "items (Reporters [example_reporter ''tests/foo.py'' 1])
     = [Bare (example_reporter ''tests/foo.py'' 1)]"
    by simp
  have n: "\<not> GlobMatcher_compat (cov_obj ?cv) [''src/main.py''] ''report_include''
        (filename (unpack_file_reporter (Bare (example_reporter ''tests/foo.py'' 1))))"
    by (simp add: example_simps GlobMatcher_compat_def)
  from no_data_to_report [OF h, of example_world "''out.info''"] i n show ?thesis by blast
qed

text \<open>
  Claim C7. A file of the dataset whose path matches an include pattern and an omit
  pattern is not in the list of eligible files, is not visited by the loop, and the
  report is the one the converter gives when the provider does not list that file at
  all.
\<close>

theorem omit_after_include:
  assumes mem: "it \<in> set (items (cov_get_file_reporters (cov_obj self)))"
    and inc: "GlobMatcher_compat (cov_obj self) (report_include (cov_config (cov_obj self)))
                ''report_include'' (filename (unpack_file_reporter it))"
    and om: "GlobMatcher_compat (cov_obj self) (report_omit (cov_config (cov_obj self)))
                ''report_omit'' (filename (unpack_file_reporter it))"
  shows "(\<forall>frs. get_file_reporters self = Inr frs \<longrightarrow>
            it \<notin> set (items frs) \<and> it \<notin> set (sorted_reporters frs)) \<and>
         get_lcov self =
         get_lcov (self\<lparr>cov_obj := (cov_obj self)
            \<lparr>cov_get_file_reporters :=
               comprehension (\<lambda>x. x \<noteq> it) (cov_get_file_reporters (cov_obj self))\<rparr>\<rparr>)"
proof -
  let ?self' = "self\<lparr>cov_obj := (cov_obj self)
            \<lparr>cov_get_file_reporters :=
               comprehension (\<lambda>x. x \<noteq> it) (cov_get_file_reporters (cov_obj self))\<rparr>\<rparr>"
  have nk: "\<not> kept (cov_obj self) it" using om by (simp add: kept_eq)
  have 1: "\<forall>frs. get_file_reporters self = Inr frs \<longrightarrow>
            it \<notin> set (items frs) \<and> it \<notin> set (sorted_reporters frs)"
    using nk by (auto simp: get_file_reporters_eq items_comprehension set_sorted_reporters
        split: if_splits)
  have k': "kept (cov_obj ?self') = kept (cov_obj self)"
    by (rule ext) (simp add: kept_def)
  have c: "comprehension (\<lambda>x. x \<noteq> it \<and> kept (cov_obj self) x) (cov_get_file_reporters (cov_obj self))
         = comprehension (kept (cov_obj self)) (cov_get_file_reporters (cov_obj self))"
    using nk by (cases "cov_get_file_reporters (cov_obj self)")
      (auto intro!: filter_cong)
  have f: "filter (\<lambda>x. x \<noteq> it \<and> kept (cov_obj self) x) (items (cov_get_file_reporters (cov_obj self)))
         = filter (kept (cov_obj self)) (items (cov_get_file_reporters (cov_obj self)))"
    using nk by (auto intro!: filter_cong)
  have "get_file_reporters ?self' = get_file_reporters self"
    unfolding get_file_reporters_eq k'
    by (simp add: items_comprehension comprehension_comprehension c f)
  then have 2: "get_lcov self = get_lcov ?self'"
    by (intro get_lcov_cong) simp_all
  from 1 2 show ?thesis by blast
qed

theorem omit_after_include_witness:
  "Bare (example_reporter ''vendor/x.py'' 1)
     \<in> set (items (Reporters [example_reporter ''vendor/x.py'' 1,
                              example_reporter ''src/main.py'' 1])) \<and>
   get_file_reporters
     (example_converter
        \<lparr>report_include = [''vendor/x.py'', ''src/main.py''], report_omit = [''vendor/x.py''],
           ignore_errors = False\<rparr>
        (Reporters [example_reporter ''vendor/x.py'' 1, example_reporter ''src/main.py'' 1])
        (\<lambda>m. Inr \<lparr>statements = {|1|}, missing = {||}\<rparr>))
     = Inr (Reporters [example_reporter ''src/main.py'' 1]) \<and>
   Bare (example_reporter ''vendor/x.py'' 1)
     \<notin> set (sorted_reporters (Reporters [example_reporter ''src/main.py'' 1])) \<and>
   get_lcov
     (example_converter
        \<lparr>report_include = [''vendor/x.py'', ''src/main.py''], report_omit = [''vendor/x.py''],
           ignore_errors = False\<rparr>
        (Reporters [example_reporter ''vendor/x.py'' 1, example_reporter ''src/main.py'' 1])
        (\<lambda>m. Inr \<lparr>statements = {|1|}, missing = {||}\<rparr>))
   = get_lcov
     (example_converter
        \<lparr>report_include = [''vendor/x.py'', ''src/main.py''], report_omit = [''vendor/x.py''],
           ignore_errors = False\<rparr>
        (Reporters [example_reporter ''src/main.py'' 1])
        (\<lambda>m. Inr \<lparr>statements = {|1|}, missing = {||}\<rparr>))"
proof -
  let ?cfg = "\<lparr>report_include = [''vendor/x.py'', ''src/main.py''],
                report_omit = [''vendor/x.py''], ignore_errors = False\<rparr>"
  let ?an = "\<lambda>m :: morf. (Inr \<lparr>statements = {|1|}, missing = {||}\<rparr> :: error + analysis)"
  let ?cv = "example_converter ?cfg
        (Reporters [example_reporter ''vendor/x.py'' 1, example_reporter ''src/main.py'' 1]) ?an"
  let ?it = "Bare (example_reporter ''vendor/x.py'' 1)"
  have mem: "?it \<in> set (items (cov_get_file_reporters (cov_obj ?cv)))"
    by (simp add: example_simps)
  have inc: "GlobMatcher_compat (cov_obj ?cv) (report_include (cov_config (cov_obj ?cv)))
                ''report_include'' (filename (unpack_file_reporter ?it))"
    by (simp add: example_simps GlobMatcher_compat_def)
  have om: "GlobMatcher_compat (cov_obj ?cv) (report_omit (cov_config (cov_obj ?cv)))
                ''report_omit'' (filename (unpack_file_reporter ?it))"
    by (simp add: example_simps GlobMatcher_compat_def)
  have g: "get_file_reporters ?cv = Inr (Reporters [example_reporter ''src/main.py'' 1])"
    by (simp add: get_file_reporters_eq kept_def example_simps)
  have upd: "?cv\<lparr>cov_obj := (cov_obj ?cv)
            \<lparr>cov_get_file_reporters :=
               comprehension (\<lambda>x. x \<noteq> ?it) (cov_get_file_reporters (cov_obj ?cv))\<rparr>\<rparr>
        = example_converter ?cfg (Reporters [example_reporter ''src/main.py'' 1]) ?an"
    by (simp add: example_simps)
  from omit_after_include [OF mem inc om] g
  have "?it \<notin> set (sorted_reporters (Reporters [example_reporter ''src/main.py'' 1]))"
    and "get_lcov ?cv = get_lcov (?cv\<lparr>cov_obj := (cov_obj ?cv)
            \<lparr>cov_get_file_reporters :=
               comprehension (\<lambda>x. x \<noteq> ?it) (cov_get_file_reporters (cov_obj ?cv))\<rparr>\<rparr>)"
    by blast+
  with g upd show ?thesis by simp
qed

text \<open>
  Claim C8. A function of HOL gives the same result on the same argument; what the
  sorting adds is that the report does not depend on the order in which the provider
  lists the files of a dataset. For two listings of the same dataset, \<open>get_lcov\<close>
  returns the same text and the same warnings.
\<close>

theorem order_independent_output:
  assumes same: "same_dataset (cov_get_file_reporters (cov_obj self)) frs'"
  shows "get_lcov (self\<lparr>cov_obj := (cov_obj self)\<lparr>cov_get_file_reporters := frs'\<rparr>\<rparr>) =
         get_lcov self"
proof -
  let ?self' = "self\<lparr>cov_obj := (cov_obj self)\<lparr>cov_get_file_reporters := frs'\<rparr>\<rparr>"
  let ?frs = "cov_get_file_reporters (cov_obj self)"
  have k': "kept (cov_obj ?self') = kept (cov_obj self)"
    by (rule ext) (simp add: kept_def)
  have e: "(filter (kept (cov_obj self)) (items frs') = []) =
           (filter (kept (cov_obj self)) (items ?frs) = [])"
    by (simp add: filter_empty_conv same_dataset_set [OF same])
  have "map_sum id sorted_reporters (get_file_reporters ?self') =
        map_sum id sorted_reporters (get_file_reporters self)"
    unfolding get_file_reporters_eq k'
    by (simp add: e same_dataset_sorted [OF same])
  then show ?thesis by (intro get_lcov_cong) simp_all
qed

theorem order_independent_output_witness:
  "same_dataset
     (Reporters [example_reporter ''b.py'' 1, example_reporter ''a.py'' 1])
     (Reporters [example_reporter ''a.py'' 1, example_reporter ''b.py'' 1]) \<and>
   get_lcov
     (example_converter (no_filters False)
        (Reporters [example_reporter ''a.py'' 1, example_reporter ''b.py'' 1])
        (\<lambda>m. Inr \<lparr>statements = {|1|}, missing = {||}\<rparr>))
   = get_lcov
     (example_converter (no_filters False)
        (Reporters [example_reporter ''b.py'' 1, example_reporter ''a.py'' 1])
        (\<lambda>m. Inr \<lparr>statements = {|1|}, missing = {||}\<rparr>))"
proof -
  let ?an = "\<lambda>m :: morf. (Inr \<lparr>statements = {|1|}, missing = {||}\<rparr> :: error + analysis)"
  let ?cv = "example_converter (no_filters False)
        (Reporters [example_reporter ''b.py'' 1, example_reporter ''a.py'' 1]) ?an"
  let ?frs' = "Reporters [example_reporter ''a.py'' 1, example_reporter ''b.py'' 1]"
  have s: "same_dataset (cov_get_file_reporters (cov_obj ?cv)) ?frs'"
    by (simp add: example_simps)
  have s': "same_dataset
     (Reporters [example_reporter ''b.py'' 1, example_reporter ''a.py'' 1]) ?frs'"
    by (simp add: example_simps)
  have upd: "?cv\<lparr>cov_obj := (cov_obj ?cv)\<lparr>cov_get_file_reporters := ?frs'\<rparr>\<rparr>
        = example_converter (no_filters False) ?frs' ?an"
    by (simp add: example_simps)
  from order_independent_output [OF s] upd s' show ?thesis by simp
qed

text \<open>
  Claim C9. \<open>create_lcov\<close> builds the whole report before it opens the file: when
  \<open>get_lcov\<close> raises, \<open>create_lcov\<close> raises the same error and leaves the world, its
  files included, as it was; the world changes only when \<open>get_lcov\<close> has returned a
  text.
\<close>

theorem write_only_after_report_built:
  "(\<forall>e. fst (get_lcov self) = Inl e \<longrightarrow>
       create_lcov self output_file_path w = (Inl e, snd (get_lcov self), w)) \<and>
   (snd (snd (create_lcov self output_file_path w)) \<noteq> w \<longrightarrow>
       (\<exists>lcov_str. fst (get_lcov self) = Inr lcov_str))"
  by (cases "get_lcov self"; cases "fst (get_lcov self)")
     (auto simp: create_lcov_def split: if_splits)

theorem write_only_after_report_built_witness:
  "fst (get_lcov example_failing) = Inl NoSource \<and>
   create_lcov example_failing ''out.info'' example_world = (Inl NoSource, [], example_world)"
  using write_only_after_report_built [of example_failing "''out.info''" example_world]
  by (simp add: example_failing_get_lcov)

text \<open>
  Claim C10 says that a file whose analysis raises \<open>NotPython\<close> and which should not be
  Python is skipped silently. The handler calls \<^verbatim>\<open>file_reporter.should_be_python()\<close>
  on the element of the list, where line 100 of the source unpacks it first. When the
  library hands out tuples, the call raises \<open>AttributeError\<close>: for one such file, with
  \<^verbatim>\<open>should_be_python\<close> false, \<open>get_lcov\<close> fails. For a bare reporter the file is
  skipped, as lemma \<open>not_python_bare_skipped\<close> shows.
\<close>

theorem not_python_on_pair_raises:
  "get_lcov (example_converter (no_filters False)
      (Pairs [((example_reporter ''page.html'' 1)\<lparr>should_be_python := False\<rparr>, ''page.html'')])
      (\<lambda>m. Inl NotPython))
   = (Inl AttributeError, [])"
  by (simp add: get_lcov_def get_lcov_records_def get_file_reporters_eq kept_def example_simps
        lcov_loop_not_python try_body_err1)

end
